theory Spec2Isabelle
  imports Main "HOL-Library.Sublist"
begin

section \<open>The in-memory graph store (\<^verbatim>\<open>servers/memory/client.ts\<close>, class \<^verbatim>\<open>MockMCPClient\<close>)\<close>

subsection \<open>Data model (\<^verbatim>\<open>servers/memory/types.ts\<close>)\<close>

text \<open>
  \<^verbatim>\<open>Entity\<close>, \<^verbatim>\<open>EntityWithType\<close> and \<^verbatim>\<open>CreateEntityInput\<close> carry the same three data fields; the
  constant tags \<^verbatim>\<open>type: 'entity'\<close> and \<^verbatim>\<open>type: 'relation'\<close> hold no information and are left out.

  Every operation but \<^verbatim>\<open>searchNodes\<close> only compares strings with each other, so the store is
  defined for any type \<open>'s\<close> of strings. \<^verbatim>\<open>searchNodes\<close>, which lower-cases, is defined for
  JavaScript strings: sequences of UTF-16 code units.
\<close>

record 's entity =
  name :: 's
  entityType :: 's
  observations :: "'s list"

text \<open>\<^verbatim>\<open>Relation\<close> and \<^verbatim>\<open>CreateRelationInput\<close>; the fields \<^verbatim>\<open>from\<close> and \<^verbatim>\<open>to\<close> are keywords here.\<close>

record 's relation =
  from_name :: 's
  to_name :: 's
  relationType :: 's

text \<open>\<^verbatim>\<open>Graph\<close> and \<^verbatim>\<open>SearchResult\<close> have the same shape.\<close>

record 's graph =
  graph_entities :: "'s entity list"
  graph_relations :: "'s relation list"

text \<open>
  Every stored entity has an observations array of its own: \<^verbatim>\<open>createEntities\<close> stores a copy
  of the array it is given and \<^verbatim>\<open>deleteObservations\<close> stores a new, filtered array. The store
  hands these arrays out, though: \<^verbatim>\<open>readGraph\<close>, \<^verbatim>\<open>searchNodes\<close> and \<^verbatim>\<open>openNodes\<close> return the
  stored entity objects themselves. So the array a caller passes to \<^verbatim>\<open>addObservations\<close> as
  \<^verbatim>\<open>contents\<close> is either an array of the caller's own, given by its elements, or the
  observations array of the entity stored under some name, which the store changes in place.
\<close>

datatype 's array_ref = Own "'s list" | Stored 's

record 's add_observation_input =
  entityName :: 's
  contents :: "'s array_ref"

text \<open>\<^verbatim>\<open>addedObservations\<close> is the caller's \<^verbatim>\<open>contents\<close> array itself, not a copy of it.\<close>

record 's add_observation_result =
  result_entityName :: 's
  addedObservations :: "'s array_ref"

record 's delete_observation_input =
  deletion_entityName :: 's
  deletion_observations :: "'s list"

subsection \<open>The JavaScript \<^verbatim>\<open>Map\<close>: keyed entries in insertion order\<close>

text \<open>
  \<^verbatim>\<open>Map.prototype.set\<close> replaces the value of a key that is present and keeps its position, and
  appends a new key at the end; \<^verbatim>\<open>values()\<close> iterates in insertion order.
\<close>

primrec Map_get :: "('k \<times> 'v) list \<Rightarrow> 'k \<Rightarrow> 'v option" where
  "Map_get [] k = None"
| "Map_get (p # ps) k = (if fst p = k then Some (snd p) else Map_get ps k)"

primrec Map_set :: "'k \<Rightarrow> 'v \<Rightarrow> ('k \<times> 'v) list \<Rightarrow> ('k \<times> 'v) list" where
  "Map_set k v [] = [(k, v)]"
| "Map_set k v (p # ps) = (if fst p = k then (k, v) # ps else p # Map_set k v ps)"

definition Map_delete :: "'k \<Rightarrow> ('k \<times> 'v) list \<Rightarrow> ('k \<times> 'v) list" where
  "Map_delete k m = filter (\<lambda>p. fst p \<noteq> k) m"

definition Map_values :: "('k \<times> 'v) list \<Rightarrow> 'v list" where
  "Map_values m = map snd m"

subsection \<open>The client state and its nine operations\<close>

record 's mock_client =
  entities :: "('s \<times> 's entity) list"
  relations :: "'s relation list"

definition new_MockMCPClient :: "'s mock_client" where
  "new_MockMCPClient = \<lparr>entities = [], relations = []\<rparr>"

text \<open>Every operation takes the client state and returns its result with the new state.\<close>

definition readGraph :: "'s mock_client \<Rightarrow> 's graph \<times> 's mock_client" where
  "readGraph this =
     (\<lparr>graph_entities = Map_values (entities this), graph_relations = relations this\<rparr>, this)"

fun createEntities_loop ::
  "'s entity list \<Rightarrow> 's entity list \<times> 's mock_client \<Rightarrow> 's entity list \<times> 's mock_client" where
  "createEntities_loop [] (created, this) = (created, this)"
| "createEntities_loop (e # rest) (created, this) =
     (let entityWithType =
            \<lparr>name = name e, entityType = entityType e, observations = observations e\<rparr>
      in createEntities_loop rest
           (created @ [e],
            this\<lparr>entities := Map_set (name e) entityWithType (entities this)\<rparr>))"

definition createEntities ::
  "'s entity list \<Rightarrow> 's mock_client \<Rightarrow> 's entity list \<times> 's mock_client" where
  "createEntities es this = createEntities_loop es ([], this)"

fun createRelations_loop :: "'s relation list \<Rightarrow> 's mock_client \<Rightarrow> 's mock_client" where
  "createRelations_loop [] this = this"
| "createRelations_loop (r # rest) this =
     createRelations_loop rest (this\<lparr>relations := relations this @ [r]\<rparr>)"

definition createRelations ::
  "'s relation list \<Rightarrow> 's mock_client \<Rightarrow> 's relation list \<times> 's mock_client" where
  "createRelations rs this = (rs, createRelations_loop rs this)"

text \<open>
  What an array reference holds in a given state. A reference \<open>Stored k\<close> is only given for
  a name \<open>k\<close> that is stored.
\<close>

fun read_array :: "'s mock_client \<Rightarrow> 's array_ref \<Rightarrow> 's list" where
  "read_array this (Own xs) = xs"
| "read_array this (Stored k) =
     (case Map_get (entities this) k of Some e \<Rightarrow> observations e | None \<Rightarrow> [])"

text \<open>
  \<^verbatim>\<open>entity.observations.push(...obs.contents)\<close> spreads the contents into the arguments of one
  call and appends them to the stored array in place. An engine takes a limited number of
  arguments in a call (\<open>max_args\<close>, which depends on the engine and its stack) and raises a
  \<^verbatim>\<open>RangeError\<close> beyond it; the exception leaves the loop with the entries before it done.
\<close>

datatype js_error = RangeError

fun addObservations_loop ::
  "nat \<Rightarrow> 's add_observation_input list \<Rightarrow> 's add_observation_result list \<times> 's mock_client \<Rightarrow>
   (js_error + 's add_observation_result list) \<times> 's mock_client" where
  "addObservations_loop max_args [] (results, this) = (Inr results, this)"
| "addObservations_loop max_args (obs # rest) (results, this) =
     (case Map_get (entities this) (entityName obs) of
        Some e \<Rightarrow>
          (let items = read_array this (contents obs)
           in if max_args < length items then (Inl RangeError, this)
              else addObservations_loop max_args rest
                (results @
                   [\<lparr>result_entityName = entityName obs, addedObservations = contents obs\<rparr>],
                 this\<lparr>entities :=
                   Map_set (entityName obs) (e\<lparr>observations := observations e @ items\<rparr>)
                     (entities this)\<rparr>))
      | None \<Rightarrow> addObservations_loop max_args rest (results, this))"

definition addObservations ::
  "nat \<Rightarrow> 's add_observation_input list \<Rightarrow> 's mock_client \<Rightarrow>
   (js_error + 's add_observation_result list) \<times> 's mock_client" where
  "addObservations max_args inputs this = addObservations_loop max_args inputs ([], this)"

fun deleteEntities_loop :: "'s list \<Rightarrow> 's mock_client \<Rightarrow> 's mock_client" where
  "deleteEntities_loop [] this = this"
| "deleteEntities_loop (n # rest) this =
     deleteEntities_loop rest
       \<lparr>entities = Map_delete n (entities this),
        relations = filter (\<lambda>r. from_name r \<noteq> n \<and> to_name r \<noteq> n) (relations this)\<rparr>"

definition deleteEntities ::
  "'s list \<Rightarrow> 's mock_client \<Rightarrow> (bool \<times> string) \<times> 's mock_client" where
  "deleteEntities entityNames this =
     ((True, ''Entities deleted successfully''), deleteEntities_loop entityNames this)"

fun deleteObservations_loop ::
  "'s delete_observation_input list \<Rightarrow> 's mock_client \<Rightarrow> 's mock_client" where
  "deleteObservations_loop [] this = this"
| "deleteObservations_loop (d # rest) this =
     (case Map_get (entities this) (deletion_entityName d) of
        Some e \<Rightarrow>
          deleteObservations_loop rest
            (this\<lparr>entities :=
               Map_set (deletion_entityName d)
                 (e\<lparr>observations :=
                      filter (\<lambda>ob. ob \<notin> set (deletion_observations d)) (observations e)\<rparr>)
                 (entities this)\<rparr>)
      | None \<Rightarrow> deleteObservations_loop rest this)"

definition deleteObservations ::
  "'s delete_observation_input list \<Rightarrow> 's mock_client \<Rightarrow> bool \<times> 's mock_client" where
  "deleteObservations deletions this = (True, deleteObservations_loop deletions this)"

fun deleteRelations_loop :: "'s relation list \<Rightarrow> 's mock_client \<Rightarrow> 's mock_client" where
  "deleteRelations_loop [] this = this"
| "deleteRelations_loop (rel # rest) this =
     deleteRelations_loop rest
       (this\<lparr>relations :=
          filter (\<lambda>r. \<not> (from_name r = from_name rel \<and> to_name r = to_name rel \<and>
                           relationType r = relationType rel))
            (relations this)\<rparr>)"

definition deleteRelations ::
  "'s relation list \<Rightarrow> 's mock_client \<Rightarrow> bool \<times> 's mock_client" where
  "deleteRelations rs this = (True, deleteRelations_loop rs this)"

subsection \<open>JavaScript strings and \<^verbatim>\<open>toLowerCase\<close>\<close>

text \<open>
  A JavaScript string is a sequence of UTF-16 code units, numbers below \<open>2\<^sup>1\<^sup>6\<close>.
  \<^verbatim>\<open>String.prototype.toLowerCase\<close> follows the Unicode default case conversion, whose data
  are given here for three blocks: Basic Latin, the Latin-1 Supplement (code units up to
  \<^verbatim>\<open>U+00FF\<close>) and the Greek letters from capital alpha to small upsilon with dialytika
  (\<^verbatim>\<open>U+0391\<close> to \<^verbatim>\<open>U+03CB\<close>, without the unassigned \<^verbatim>\<open>U+03A2\<close>). For a string with a code
  unit outside these blocks the model has no data and gives \<open>None\<close>.
\<close>

type_synonym js_string = "nat list"

definition in_repertoire :: "nat \<Rightarrow> bool" where
  "in_repertoire c = (c \<le> 0xFF \<or> (0x391 \<le> c \<and> c \<le> 0x3CB \<and> c \<noteq> 0x3A2))"

text \<open>
  The capitals of the three blocks: \<^verbatim>\<open>A\<close> to \<^verbatim>\<open>Z\<close>, the accented capitals \<^verbatim>\<open>U+00C0\<close> to
  \<^verbatim>\<open>U+00DE\<close> (but not the multiplication sign \<^verbatim>\<open>U+00D7\<close>) and the Greek capitals \<^verbatim>\<open>U+0391\<close> to
  \<^verbatim>\<open>U+03AB\<close>. The small letter of each is 32 above it.
\<close>

definition capital :: "nat \<Rightarrow> bool" where
  "capital c =
     ((0x41 \<le> c \<and> c \<le> 0x5A) \<or> (0xC0 \<le> c \<and> c \<le> 0xDE \<and> c \<noteq> 0xD7) \<or>
      (0x391 \<le> c \<and> c \<le> 0x3AB \<and> c \<noteq> 0x3A2))"

definition lower_unit :: "nat \<Rightarrow> nat" where
  "lower_unit c = (if capital c then c + 32 else c)"

text \<open>
  Capital sigma (\<^verbatim>\<open>U+03A3\<close>) becomes the final small sigma (\<^verbatim>\<open>U+03C2\<close>) instead of the small
  sigma (\<^verbatim>\<open>U+03C3\<close>) when it ends a word: when a cased letter stands before it and none after
  it, characters that are ignored for case skipped on both sides (the condition
  \<^verbatim>\<open>Final_Sigma\<close> of the Unicode standard). The cased letters of the three blocks are the
  letters, the ordinal indicators \<^verbatim>\<open>U+00AA\<close> and \<^verbatim>\<open>U+00BA\<close> and the micro sign \<^verbatim>\<open>U+00B5\<close>; the
  ignored characters are the apostrophe, the full stop, the colon, the circumflex, the grave
  accent, the diaeresis, the soft hyphen, the macron, the acute accent, the middle dot and
  the cedilla.
\<close>

definition cased :: "nat \<Rightarrow> bool" where
  "cased c =
     ((0x41 \<le> c \<and> c \<le> 0x5A) \<or> (0x61 \<le> c \<and> c \<le> 0x7A) \<or>
      c = 0xAA \<or> c = 0xB5 \<or> c = 0xBA \<or>
      (0xC0 \<le> c \<and> c \<le> 0xD6) \<or> (0xD8 \<le> c \<and> c \<le> 0xF6) \<or> (0xF8 \<le> c \<and> c \<le> 0xFF) \<or>
      (0x391 \<le> c \<and> c \<le> 0x3CB \<and> c \<noteq> 0x3A2))"

definition case_ignorable :: "nat \<Rightarrow> bool" where
  "case_ignorable c =
     (c = 0x27 \<or> c = 0x2E \<or> c = 0x3A \<or> c = 0x5E \<or> c = 0x60 \<or> c = 0xA8 \<or> c = 0xAD \<or>
      c = 0xAF \<or> c = 0xB4 \<or> c = 0xB7 \<or> c = 0xB8)"

text \<open>The nearest code unit that is not ignored for case is a cased letter.\<close>

fun cased_letter_next :: "js_string \<Rightarrow> bool" where
  "cased_letter_next [] = False"
| "cased_letter_next (c # cs) = (if case_ignorable c then cased_letter_next cs else cased c)"

text \<open>\<open>before\<close> holds the code units already passed, the nearest first.\<close>

fun lower_from :: "js_string \<Rightarrow> js_string \<Rightarrow> js_string" where
  "lower_from before [] = []"
| "lower_from before (c # rest) =
     (if c = 0x3A3
      then (if cased_letter_next before \<and> \<not> cased_letter_next rest then 0x3C2 else 0x3C3)
      else lower_unit c) # lower_from (c # before) rest"

definition toLowerCase :: "js_string \<Rightarrow> js_string option" where
  "toLowerCase s = (if list_all in_repertoire s then Some (lower_from [] s) else None)"

text \<open>\<^verbatim>\<open>s.includes(q)\<close>: \<open>q\<close> occurs in \<open>s\<close> as a run of adjacent code units.\<close>

fun startsWith :: "'a list \<Rightarrow> 'a list \<Rightarrow> bool" where
  "startsWith s [] = True"
| "startsWith [] (c # q) = False"
| "startsWith (d # s) (c # q) = (d = c \<and> startsWith s q)"

fun String_includes :: "'a list \<Rightarrow> 'a list \<Rightarrow> bool" where
  "String_includes [] q = startsWith [] q"
| "String_includes (d # s) q = (startsWith (d # s) q \<or> String_includes s q)"

text \<open>
  \<^verbatim>\<open>s.toLowerCase().includes(query.toLowerCase())\<close>, with \<open>None\<close> when the model has no data
  for one of the two strings.
\<close>

definition lower_includes :: "js_string \<Rightarrow> js_string \<Rightarrow> bool option" where
  "lower_includes s query =
     (case toLowerCase s of
        None \<Rightarrow> None
      | Some ls \<Rightarrow>
          (case toLowerCase query of None \<Rightarrow> None | Some lq \<Rightarrow> Some (String_includes ls lq)))"

text \<open>\<^verbatim>\<open>a || b\<close> and \<^verbatim>\<open>Array.prototype.some\<close> stop at the first operand that is true.\<close>

fun or_else :: "bool option \<Rightarrow> bool option \<Rightarrow> bool option" where
  "or_else None b = None"
| "or_else (Some True) b = Some True"
| "or_else (Some False) b = b"

fun Array_some :: "('a \<Rightarrow> bool option) \<Rightarrow> 'a list \<Rightarrow> bool option" where
  "Array_some p [] = Some False"
| "Array_some p (x # xs) = or_else (p x) (Array_some p xs)"

fun Array_filter :: "('a \<Rightarrow> bool option) \<Rightarrow> 'a list \<Rightarrow> 'a list option" where
  "Array_filter p [] = Some []"
| "Array_filter p (x # xs) =
     (case p x of
        None \<Rightarrow> None
      | Some keep \<Rightarrow>
          (case Array_filter p xs of
             None \<Rightarrow> None
           | Some ys \<Rightarrow> Some (if keep then x # ys else ys)))"

definition searchNodes_matches :: "js_string \<Rightarrow> js_string entity \<Rightarrow> bool option" where
  "searchNodes_matches query e =
     or_else (lower_includes (name e) query)
       (or_else (lower_includes (entityType e) query)
          (Array_some (\<lambda>ob. lower_includes ob query) (observations e)))"

definition searchNodes ::
  "js_string \<Rightarrow> js_string mock_client \<Rightarrow> (js_string graph \<times> js_string mock_client) option" where
  "searchNodes query this =
     (case Array_filter (searchNodes_matches query) (Map_values (entities this)) of
        None \<Rightarrow> None
      | Some matchingEntities \<Rightarrow>
          Some (\<lparr>graph_entities = matchingEntities, graph_relations = []\<rparr>, this))"

definition openNodes :: "'s list \<Rightarrow> 's mock_client \<Rightarrow> 's graph \<times> 's mock_client" where
  "openNodes names this =
     (\<lparr>graph_entities =
         map the (filter (\<lambda>x. x \<noteq> None) (map (Map_get (entities this)) names)),
       graph_relations = []\<rparr>, this)"

text \<open>
  \<^verbatim>\<open>loadData\<close> clears the client and stores the given graph, each entity under its name. It
  stores the entity objects it is given, so it is to be given entities with observations
  arrays of their own.
\<close>

definition loadData :: "'s graph \<Rightarrow> 's mock_client \<Rightarrow> 's mock_client" where
  "loadData g this =
     \<lparr>entities = fold (\<lambda>e m. Map_set (name e) e m) (graph_entities g) [],
      relations =
        fold (\<lambda>r rs. rs @ [\<lparr>from_name = from_name r, to_name = to_name r,
                               relationType = relationType r\<rparr>])
          (graph_relations g) []\<rparr>"

section \<open>The execution engine (\<^verbatim>\<open>executor/sandbox.ts\<close>)\<close>

subsection \<open>Console capture\<close>

text \<open>
  A console argument is classified the way \<^verbatim>\<open>formatValue\<close> tests it. A number and any other
  value carry the text \<^verbatim>\<open>String(value)\<close> gives them, an array and an object the text
  \<^verbatim>\<open>JSON.stringify(value, null, 2)\<close> gives them.
\<close>

datatype js_value =
    JNull
  | JUndefined
  | JString string
  | JNumber string
  | JBoolean bool
  | JArray string
  | JObject string
  | JOther string

fun formatValue :: "js_value \<Rightarrow> string" where
  "formatValue JNull = ''null''"
| "formatValue JUndefined = ''undefined''"
| "formatValue (JString s) = s"
| "formatValue (JNumber shown) = shown"
| "formatValue (JBoolean b) = (if b then ''true'' else ''false'')"
| "formatValue (JArray json) = json"
| "formatValue (JObject json) = json"
| "formatValue (JOther shown) = shown"

fun join :: "string \<Rightarrow> string list \<Rightarrow> string" where
  "join sep [] = []"
| "join sep [x] = x"
| "join sep (x # y # ys) = x @ sep @ join sep (y # ys)"

datatype console_method = Console_log | Console_error | Console_warn

text \<open>Each method pushes one line onto the \<^verbatim>\<open>output\<close> array of the run.\<close>

fun sandboxConsole :: "console_method \<Rightarrow> js_value list \<Rightarrow> string list \<Rightarrow> string list" where
  "sandboxConsole Console_log args out = out @ [join '' '' (map formatValue args)]"
| "sandboxConsole Console_error args out =
     out @ [''[ERROR] '' @ join '' '' (map formatValue args)]"
| "sandboxConsole Console_warn args out =
     out @ [''[WARN] '' @ join '' '' (map formatValue args)]"

subsection \<open>Scripts\<close>

text \<open>
  The engine never looks into the script text: it hands it to \<^verbatim>\<open>vm.Script\<close> and observes
  what the wrapped \<^verbatim>\<open>async\<close> body does. For a given script and given tool responses that
  is one sequence of actions of the body: a console call, a stretch of synchronous
  computation taking some milliseconds, an \<^verbatim>\<open>await\<close> whose promise settles after some
  milliseconds (a tool call or a timer), an uncaught \<^verbatim>\<open>throw\<close>, or a synchronous loop
  that never ends. A body that runs out of actions returns. A script that does not parse
  makes \<^verbatim>\<open>new vm.Script\<close> throw a \<^verbatim>\<open>SyntaxError\<close>. The body awaits what it starts:
  callbacks that it leaves behind without awaiting them are not part of the sequence.

  A thrown value is told by what the \<^verbatim>\<open>catch\<close> block of \<^verbatim>\<open>executeCode\<close> does with it:
  \<^item> an instance of the host's \<^verbatim>\<open>Error\<close> (the one the context is given) whose \<^verbatim>\<open>message\<close> is a
    string;
  \<^item> an instance of the host's \<^verbatim>\<open>Error\<close> whose \<^verbatim>\<open>message\<close> is \<^verbatim>\<open>undefined\<close>;
  \<^item> any other value, with the text \<^verbatim>\<open>String(value)\<close> gives it: an error of the context's own
    realm (\<^verbatim>\<open>ReferenceError: x is not defined\<close>), a string, a number;
  \<^item> a value that \<^verbatim>\<open>String\<close> cannot convert, an object without a prototype for one:
    \<^verbatim>\<open>String(value)\<close> throws a \<^verbatim>\<open>TypeError\<close>.
\<close>

datatype thrown =
    Error_instance string
  | Error_without_message
  | Other_thrown string
  | Unconvertible

datatype action =
    Write console_method "js_value list"
  | Compute nat
  | Await nat
  | Throw thrown
  | Loop_forever

datatype script = SyntaxError string | Script "action list"

text \<open>An \<^verbatim>\<open>error\<close> that is \<^verbatim>\<open>undefined\<close> counts as an absent one: \<open>None\<close>.\<close>

record ExecutionResult =
  success :: bool
  "output" :: "string list"
  error :: "string option"
  elapsedMs :: nat

record ExecutionOptions =
  timeoutMs :: "nat option"

subsection \<open>What \<^verbatim>\<open>node:vm\<close> does with the script\<close>

fun string_of_nat :: "nat \<Rightarrow> string" where
  "string_of_nat n =
     (if n < 10 then [''0123456789'' ! n]
      else string_of_nat (n div 10) @ [''0123456789'' ! (n mod 10)])"

declare string_of_nat.simps [simp del]

text \<open>
  The error of the watchdog is made in the realm of the context, so it is no instance of
  the host's \<^verbatim>\<open>Error\<close> and is reported by \<^verbatim>\<open>String(error)\<close>, name first.
\<close>

definition timed_out :: "nat \<Rightarrow> thrown" where
  "timed_out ms =
     Other_thrown (''Error: Script execution timed out after '' @ string_of_nat ms @ ''ms'')"

text \<open>
  The range error of the host prints an integer above \<open>2\<^sup>3\<^sup>2\<close> with an underscore
  before every group of three digits.
\<close>

fun separate :: "string \<Rightarrow> string" where
  "separate (a # b # c # d # rest) = a # b # c # CHR ''_'' # separate (d # rest)"
| "separate digits = digits"

definition received :: "nat \<Rightarrow> string" where
  "received ms =
     (if 4294967296 < ms then rev (separate (rev (string_of_nat ms))) else string_of_nat ms)"

definition timeout_out_of_range :: "nat \<Rightarrow> thrown" where
  "timeout_out_of_range ms =
     Error_instance
       (''The value of '' @ [CHR 0x22] @ ''options.timeout'' @ [CHR 0x22] @
        '' is out of range. '' @
        ''It must be >= 1 && <= 4294967295. Received '' @ received ms)"

text \<open>
  \<^verbatim>\<open>script.runInContext(context, {timeout})\<close> runs the body synchronously, up to its first
  \<^verbatim>\<open>await\<close>, and returns the promise of the \<^verbatim>\<open>async\<close> function. The watchdog of the
  \<^verbatim>\<open>timeout\<close> option covers this synchronous run only: when the run lasts longer, it is
  terminated and \<^verbatim>\<open>runInContext\<close> throws. The state is the captured output and the clock,
  in milliseconds since \<^verbatim>\<open>startTime\<close>.
\<close>

datatype promise = Fulfilled | Rejected thrown | Pending nat "action list"

fun runInContext ::
  "nat \<Rightarrow> action list \<Rightarrow> string list \<Rightarrow> nat \<Rightarrow> (thrown + promise) \<times> string list \<times> nat" where
  "runInContext limit [] out now = (Inr Fulfilled, out, now)"
| "runInContext limit (Write m args # rest) out now =
     runInContext limit rest (sandboxConsole m args out) now"
| "runInContext limit (Compute n # rest) out now =
     (if limit < now + n then (Inl (timed_out limit), out, limit)
      else runInContext limit rest out (now + n))"
| "runInContext limit (Await n # rest) out now = (Inr (Pending n rest), out, now)"
| "runInContext limit (Throw v # rest) out now = (Inr (Rejected v), out, now)"
| "runInContext limit (Loop_forever # rest) out now = (Inl (timed_out limit), out, limit)"

text \<open>
  After its first \<^verbatim>\<open>await\<close> the body is resumed from the host's event loop, where no
  watchdog runs. A body that loops there never settles its promise: the result is \<open>None\<close>.
\<close>

fun resume ::
  "action list \<Rightarrow> string list \<Rightarrow> nat \<Rightarrow> ((thrown + unit) \<times> string list \<times> nat) option" where
  "resume [] out now = Some (Inr (), out, now)"
| "resume (Write m args # rest) out now = resume rest (sandboxConsole m args out) now"
| "resume (Compute n # rest) out now = resume rest out (now + n)"
| "resume (Await n # rest) out now = resume rest out (now + n)"
| "resume (Throw v # rest) out now = Some (Inl v, out, now)"
| "resume (Loop_forever # rest) out now = None"

text \<open>
  \<^verbatim>\<open>await resultPromise\<close>: a fulfilled promise goes on, a rejected one throws its reason, a
  pending one waits for the body to settle it. An exception of \<^verbatim>\<open>runInContext\<close> itself
  leaves the \<^verbatim>\<open>try\<close> block before the \<^verbatim>\<open>await\<close>.
\<close>

fun await_promise ::
  "(thrown + promise) \<times> string list \<times> nat \<Rightarrow> ((thrown + unit) \<times> string list \<times> nat) option" where
  "await_promise (Inl v, out, now) = Some (Inl v, out, now)"
| "await_promise (Inr Fulfilled, out, now) = Some (Inr (), out, now)"
| "await_promise (Inr (Rejected v), out, now) = Some (Inl v, out, now)"
| "await_promise (Inr (Pending n rest), out, now) = resume rest out (now + n)"

text \<open>
  The \<^verbatim>\<open>try\<close> block of \<^verbatim>\<open>executeCode\<close>: compile, run with the timeout, await.
  \<^verbatim>\<open>runInContext\<close> accepts a timeout from 1 to \<open>2\<^sup>3\<^sup>2 - 1\<close> only and throws a range error
  otherwise.
\<close>

fun try_block ::
  "nat \<Rightarrow> script \<Rightarrow> ((thrown + unit) \<times> string list \<times> nat) option" where
  "try_block limit (SyntaxError msg) = Some (Inl (Error_instance msg), [], 0)"
| "try_block limit (Script acts) =
     (if limit < 1 \<or> 4294967295 < limit then Some (Inl (timeout_out_of_range limit), [], 0)
      else await_promise (runInContext limit acts [] 0))"

subsection \<open>\<^verbatim>\<open>executeCode\<close>\<close>

text \<open>
  \<^verbatim>\<open>error instanceof Error ? error.message : String(error)\<close>: a string, \<^verbatim>\<open>undefined\<close>
  (\<open>None\<close>), or the \<^verbatim>\<open>TypeError\<close> that \<^verbatim>\<open>String\<close> throws.
\<close>

fun errorMessage :: "thrown \<Rightarrow> thrown + string option" where
  "errorMessage (Error_instance message) = Inr (Some message)"
| "errorMessage Error_without_message = Inr None"
| "errorMessage (Other_thrown shown) = Inr (Some shown)"
| "errorMessage Unconvertible =
     Inl (Error_instance ''Cannot convert object to primitive value'')"

text \<open>\<^verbatim>\<open>const { timeoutMs = 30000 } = options\<close>\<close>

definition budget :: "ExecutionOptions \<Rightarrow> nat" where
  "budget options = (case timeoutMs options of None \<Rightarrow> 30000 | Some ms \<Rightarrow> ms)"

text \<open>
  The promise that \<^verbatim>\<open>executeCode\<close> returns: it never settles (\<open>None\<close>), it is rejected, when the
  \<^verbatim>\<open>catch\<close> block itself throws (\<open>Inl\<close>), or it is fulfilled with an outcome (\<open>Inr\<close>).
\<close>

definition executeCode ::
  "script \<Rightarrow> ExecutionOptions \<Rightarrow> (thrown + ExecutionResult) option" where
  "executeCode code options =
     (case try_block (budget options) code of
        None \<Rightarrow> None
      | Some (Inr u, out, now) \<Rightarrow>
          Some (Inr \<lparr>success = True, output = out, error = None, elapsedMs = now\<rparr>)
      | Some (Inl v, out, now) \<Rightarrow>
          (case errorMessage v of
             Inl t \<Rightarrow> Some (Inl t)
           | Inr description \<Rightarrow>
               Some (Inr \<lparr>success = False, output = out, error = description,
                         elapsedMs = now\<rparr>)))"

section \<open>Vocabulary of the properties\<close>

subsection \<open>Store\<close>

text \<open>
  The client keeps every entity under its own name, and a \<^verbatim>\<open>Map\<close> holds a key once. Both hold
  for a new client and after \<^verbatim>\<open>loadData\<close>, and every operation keeps them.
\<close>

definition wf_client :: "'s mock_client \<Rightarrow> bool" where
  "wf_client this =
     (distinct (map fst (entities this)) \<and>
      list_all (\<lambda>p. name (snd p) = fst p) (entities this))"

definition entity_exists :: "'s mock_client \<Rightarrow> 's \<Rightarrow> bool" where
  "entity_exists this n = (Map_get (entities this) n \<noteq> None)"

text \<open>The result entry that reports one input entry of \<^verbatim>\<open>addObservations\<close>.\<close>

definition add_result :: "'s add_observation_input \<Rightarrow> 's add_observation_result" where
  "add_result i = \<lparr>result_entityName = entityName i, addedObservations = contents i\<rparr>"

text \<open>
  An input entry whose contents is an array of the caller's own with no more elements than
  one call takes, and the strings of such an array.
\<close>

fun own_within :: "nat \<Rightarrow> 's array_ref \<Rightarrow> bool" where
  "own_within max_args (Own xs) = (length xs \<le> max_args)"
| "own_within max_args (Stored k) = False"

fun own_strings :: "'s array_ref \<Rightarrow> 's list" where
  "own_strings (Own xs) = xs"
| "own_strings (Stored k) = []"

text \<open>All strings that a list of input entries gives for one entity name, in input order.\<close>

definition appended_to :: "'s \<Rightarrow> 's add_observation_input list \<Rightarrow> 's list" where
  "appended_to n inputs =
     concat (map (\<lambda>i. own_strings (contents i)) (filter (\<lambda>i. entityName i = n) inputs))"

text \<open>
  Case-insensitive occurrence, stated without \<^verbatim>\<open>toLowerCase\<close>: two code units are the same
  letter when they are equal or one is the capital of the other, two strings are equal
  ignoring case when they are so unit by unit, and \<open>q\<close> occurs in \<open>s\<close> when one of the
  substrings of \<open>s\<close> equals \<open>q\<close> ignoring case.
\<close>

definition case_variants :: "nat \<Rightarrow> nat \<Rightarrow> bool" where
  "case_variants u l = (capital u \<and> l = u + 32)"

definition same_letter :: "nat \<Rightarrow> nat \<Rightarrow> bool" where
  "same_letter a b = (a = b \<or> case_variants a b \<or> case_variants b a)"

definition equal_ignoring_case :: "js_string \<Rightarrow> js_string \<Rightarrow> bool" where
  "equal_ignoring_case s t = list_all2 same_letter s t"

definition substrings :: "'a list \<Rightarrow> 'a list list" where
  "substrings s = concat (map prefixes (suffixes s))"

definition occurs_ignoring_case :: "js_string \<Rightarrow> js_string \<Rightarrow> bool" where
  "occurs_ignoring_case q s = list_ex (\<lambda>t. equal_ignoring_case t q) (substrings s)"

definition spec_matches :: "js_string \<Rightarrow> js_string entity \<Rightarrow> bool" where
  "spec_matches q e =
     (occurs_ignoring_case q (name e) \<or> occurs_ignoring_case q (entityType e) \<or>
      list_ex (occurs_ignoring_case q) (observations e))"

text \<open>Strings of the three blocks without capital sigma, and entities made of such strings.\<close>

definition without_capital_sigma :: "js_string \<Rightarrow> bool" where
  "without_capital_sigma s = list_all (\<lambda>c. in_repertoire c \<and> c \<noteq> 0x3A3) s"

definition entity_without_capital_sigma :: "js_string entity \<Rightarrow> bool" where
  "entity_without_capital_sigma e =
     (without_capital_sigma (name e) \<and> without_capital_sigma (entityType e) \<and>
      list_all without_capital_sigma (observations e))"

text \<open>
  The requested names mapped, in the order of the request, to the stored entity of that
  name, the names without a stored entity dropped.
\<close>

definition stored_in_request_order :: "('s \<times> 's entity) list \<Rightarrow> 's list \<Rightarrow> 's entity list" where
  "stored_in_request_order m names =
     concat (map (\<lambda>n. case Map_get m n of None \<Rightarrow> [] | Some e \<Rightarrow> [e]) names)"

subsection \<open>Execution\<close>

text \<open>The lines a body writes, in the order of its console calls.\<close>

fun written :: "action list \<Rightarrow> string list" where
  "written [] = []"
| "written (Write m args # rest) = sandboxConsole m args [] @ written rest"
| "written (a # rest) = written rest"

text \<open>
  How the run of a body ends: it returns, it throws, the watchdog stops it, or it loops
  for ever in the event loop of the host. The watchdog runs until the first \<^verbatim>\<open>await\<close> only
  (\<open>awaited\<close> tells whether the body has awaited already, \<open>now\<close> is the clock).
\<close>

datatype fate = Returns | Throws thrown | Stopped | Hangs

fun fate_from :: "nat \<Rightarrow> bool \<Rightarrow> nat \<Rightarrow> action list \<Rightarrow> fate" where
  "fate_from limit awaited now [] = Returns"
| "fate_from limit awaited now (Write m args # rest) = fate_from limit awaited now rest"
| "fate_from limit awaited now (Compute n # rest) =
     (if \<not> awaited \<and> limit < now + n then Stopped
      else fate_from limit awaited (now + n) rest)"
| "fate_from limit awaited now (Await n # rest) = fate_from limit True (now + n) rest"
| "fate_from limit awaited now (Throw v # rest) = Throws v"
| "fate_from limit awaited now (Loop_forever # rest) = (if awaited then Hangs else Stopped)"


text \<open>With a timeout that \<^verbatim>\<open>runInContext\<close> refuses, the body does not run at all.\<close>

definition fate :: "nat \<Rightarrow> action list \<Rightarrow> fate" where
  "fate limit acts =
     (if limit < 1 \<or> 4294967295 < limit then Throws (timeout_out_of_range limit)
      else fate_from limit False 0 acts)"






text \<open>An action after which the body goes on; one that neither awaits nor ends the body.\<close>

fun proceeds :: "action \<Rightarrow> bool" where
  "proceeds (Write m args) = True"
| "proceeds (Compute n) = True"
| "proceeds (Await n) = True"
| "proceeds (Throw v) = False"
| "proceeds Loop_forever = False"

fun synchronous :: "action \<Rightarrow> bool" where
  "synchronous (Write m args) = True"
| "synchronous (Compute n) = True"
| "synchronous a = False"

text \<open>The time a run of actions takes, and the time of its part before the first \<^verbatim>\<open>await\<close>.\<close>

fun duration :: "action list \<Rightarrow> nat" where
  "duration [] = 0"
| "duration (Compute n # rest) = n + duration rest"
| "duration (Await n # rest) = n + duration rest"
| "duration (a # rest) = duration rest"

fun sync_cost :: "action list \<Rightarrow> nat" where
  "sync_cost [] = 0"
| "sync_cost (Compute n # rest) = n + sync_cost rest"
| "sync_cost (Write m args # rest) = sync_cost rest"
| "sync_cost (a # rest) = 0"

section \<open>The store: lemmas\<close>

subsection \<open>\<^verbatim>\<open>Map\<close>\<close>

lemma Map_get_set: "Map_get (Map_set k v m) k' = (if k' = k then Some v else Map_get m k')"
  by (induction m) auto

lemma Map_get_None_iff: "Map_get m k = None \<longleftrightarrow> k \<notin> fst ` set m"
  by (induction m) auto

lemma Map_get_Some_mem: "Map_get m k = Some v \<Longrightarrow> (k, v) \<in> set m"
  by (induction m) (auto split: if_splits)

lemma keys_Map_set:
  "map fst (Map_set k v m) = (if k \<in> fst ` set m then map fst m else map fst m @ [k])"
  by (induction m) auto

lemma keys_Map_set_present: "Map_get m k = Some v \<Longrightarrow> map fst (Map_set k v' m) = map fst m"
  using Map_get_None_iff [of m k] by (simp add: keys_Map_set)

lemma Map_get_delete: "Map_get (Map_delete k m) k' = (if k' = k then None else Map_get m k')"
  by (induction m) (auto simp: Map_delete_def)

lemma wf_Map_set:
  assumes "distinct (map fst m)" "list_all (\<lambda>p. name (snd p) = fst p) m" "name v = k"
  shows "distinct (map fst (Map_set k v m)) \<and>
         list_all (\<lambda>p. name (snd p) = fst p) (Map_set k v m)"
  using assms by (induction m) (force simp: keys_Map_set)+

lemma values_named:
  assumes "distinct (map fst m)" "list_all (\<lambda>p. name (snd p) = fst p) m"
  shows "filter (\<lambda>x. name x = n) (Map_values m) =
           (case Map_get m n of None \<Rightarrow> [] | Some v \<Rightarrow> [v])"
  using assms
proof (induction m)
  case Nil
  show ?case by (simp add: Map_values_def)
next
  case (Cons p m)
  then show ?case
    by (auto simp: Map_values_def Map_get_None_iff list_all_iff image_iff split: option.splits
        dest!: Map_get_Some_mem)
qed

lemma values_filter_named:
  "list_all (\<lambda>p. name (snd p) = fst p) m \<Longrightarrow>
   Map_values (filter (\<lambda>p. fst p \<notin> S) m) = filter (\<lambda>e. name e \<notin> S) (Map_values m)"
  by (induction m) (auto simp: Map_values_def)

subsection \<open>\<^verbatim>\<open>createEntities\<close>\<close>

lemma entity_copy [simp]:
  "\<lparr>name = name e, entityType = entityType e, observations = observations e\<rparr> = (e :: 's entity)"
  by (cases e) simp

lemma createEntities_loop_fold:
  "createEntities_loop es (created, this) =
     (created @ es, this\<lparr>entities := fold (\<lambda>e. Map_set (name e) e) es (entities this)\<rparr>)"
  by (induction es arbitrary: created this) (simp_all add: Let_def)

lemma createEntities_eq:
  "createEntities es this =
     (es, this\<lparr>entities := fold (\<lambda>e. Map_set (name e) e) es (entities this)\<rparr>)"
  by (simp add: createEntities_def createEntities_loop_fold)

lemma Map_get_fold_set:
  "Map_get (fold (\<lambda>e. Map_set (name e) e) es m) n =
     (case filter (\<lambda>x. name x = n) es of
        [] \<Rightarrow> Map_get m n
      | x # xs \<Rightarrow> Some (last (x # xs)))"
proof (induction es arbitrary: m)
  case Nil
  show ?case by simp
next
  case (Cons e es)
  show ?case
    by (simp add: Cons.IH Map_get_set split: list.splits)
qed

lemma keys_fold_set_present:
  "name ` set es \<subseteq> fst ` set m \<Longrightarrow>
   map fst (fold (\<lambda>e. Map_set (name e) e) es m) = map fst m"
proof (induction es arbitrary: m)
  case Nil
  show ?case by simp
next
  case (Cons e es)
  have k: "map fst (Map_set (name e) e m) = map fst m"
    using Cons.prems by (simp add: keys_Map_set)
  then have "fst ` set (Map_set (name e) e m) = fst ` set m"
    by (metis list.set_map)
  with Cons.prems have "name ` set es \<subseteq> fst ` set (Map_set (name e) e m)" by simp
  from Cons.IH [OF this] k show ?case by simp
qed

lemma wf_fold_set:
  "distinct (map fst m) \<Longrightarrow> list_all (\<lambda>p. name (snd p) = fst p) m \<Longrightarrow>
   distinct (map fst (fold (\<lambda>e. Map_set (name e) e) es m)) \<and>
   list_all (\<lambda>p. name (snd p) = fst p) (fold (\<lambda>e. Map_set (name e) e) es m)"
proof (induction es arbitrary: m)
  case Nil
  then show ?case by simp
next
  case (Cons e es)
  from wf_Map_set [OF Cons.prems(1) Cons.prems(2), of e "name e"]
  have "distinct (map fst (Map_set (name e) e m))"
    and "list_all (\<lambda>p. name (snd p) = fst p) (Map_set (name e) e m)" by simp_all
  from Cons.IH [OF this] show ?case by simp
qed

subsection \<open>\<^verbatim>\<open>addObservations\<close>\<close>

lemma read_own: "own_within max_args r \<Longrightarrow> read_array this r = own_strings r"
  by (cases r) simp_all

lemma length_own: "own_within max_args r \<Longrightarrow> \<not> max_args < length (own_strings r)"
  by (cases r) simp_all

lemma addObservations_loop_char:
  "list_all (\<lambda>i. own_within max_args (contents i)) inputs \<Longrightarrow>
   \<exists>this'. addObservations_loop max_args inputs (results, this) =
     (Inr (results @
           map add_result (filter (\<lambda>i. entity_exists this (entityName i)) inputs)), this') \<and>
   map fst (entities this') = map fst (entities this) \<and>
   relations this' = relations this \<and>
   (\<forall>n. Map_get (entities this') n =
          map_option (\<lambda>e. e\<lparr>observations := observations e @ appended_to n inputs\<rparr>)
            (Map_get (entities this) n))"
proof (induction inputs arbitrary: results this)
  case Nil
  then show ?case by (simp add: appended_to_def option.map_ident)
next
  case (Cons obs rest)
  from Cons.prems have own: "own_within max_args (contents obs)"
    and rest: "list_all (\<lambda>i. own_within max_args (contents i)) rest" by simp_all
  show ?case
  proof (cases "Map_get (entities this) (entityName obs)")
    case None
    from Cons.IH [OF rest, of results this] obtain this' where
      ih: "addObservations_loop max_args rest (results, this) =
        (Inr (results @
              map add_result (filter (\<lambda>i. entity_exists this (entityName i)) rest)), this')"
      "map fst (entities this') = map fst (entities this)"
      "relations this' = relations this"
      "\<forall>n. Map_get (entities this') n =
          map_option (\<lambda>e. e\<lparr>observations := observations e @ appended_to n rest\<rparr>)
            (Map_get (entities this) n)" by blast
    have "Map_get (entities this') n =
          map_option (\<lambda>e. e\<lparr>observations := observations e @ appended_to n (obs # rest)\<rparr>)
            (Map_get (entities this) n)" for n
      using ih(4) None by (cases "n = entityName obs") (simp_all add: appended_to_def)
    with ih None show ?thesis
      by (intro exI [of _ this']) (simp add: entity_exists_def)
  next
    case (Some e)
    let ?items = "own_strings (contents obs)"
    let ?e1 = "e\<lparr>observations := observations e @ ?items\<rparr>"
    let ?this1 = "this\<lparr>entities := Map_set (entityName obs) ?e1 (entities this)\<rparr>"
    have step: "addObservations_loop max_args (obs # rest) (results, this) =
                addObservations_loop max_args rest (results @ [add_result obs], ?this1)"
      using Some read_own [OF own, of this] length_own [OF own]
      by (simp add: add_result_def Let_def)
    from Cons.IH [OF rest, of "results @ [add_result obs]" ?this1] obtain this' where
      ih: "addObservations_loop max_args rest (results @ [add_result obs], ?this1) =
        (Inr ((results @ [add_result obs]) @
              map add_result (filter (\<lambda>i. entity_exists ?this1 (entityName i)) rest)), this')"
      "map fst (entities this') = map fst (entities ?this1)"
      "relations this' = relations ?this1"
      "\<forall>n. Map_get (entities this') n =
          map_option (\<lambda>e. e\<lparr>observations := observations e @ appended_to n rest\<rparr>)
            (Map_get (entities ?this1) n)" by blast
    have ex: "entity_exists ?this1 n = entity_exists this n" for n
      using Some by (simp add: entity_exists_def Map_get_set)
    have keys: "map fst (entities ?this1) = map fst (entities this)"
      using Some by (simp add: keys_Map_set_present)
    have here: "entity_exists this (entityName obs)"
      using Some by (simp add: entity_exists_def)
    have res: "(results @ [add_result obs]) @
              map add_result (filter (\<lambda>i. entity_exists ?this1 (entityName i)) rest) =
            results @ map add_result
              (filter (\<lambda>i. entity_exists this (entityName i)) (obs # rest))"
      unfolding ex using here by simp
    have get: "Map_get (entities this') n =
          map_option (\<lambda>e. e\<lparr>observations := observations e @ appended_to n (obs # rest)\<rparr>)
            (Map_get (entities this) n)" for n
    proof (cases "n = entityName obs")
      case True
      with ih(4) Some show ?thesis by (simp add: Map_get_set appended_to_def)
    next
      case False
      with ih(4) show ?thesis by (simp add: Map_get_set appended_to_def)
    qed
    from step ih(1) res have "addObservations_loop max_args (obs # rest) (results, this) =
        (Inr (results @ map add_result
              (filter (\<lambda>i. entity_exists this (entityName i)) (obs # rest))), this')"
      by simp
    with ih(2,3) keys get show ?thesis
      by (intro exI [of _ this']) simp
  qed
qed

lemma addObservations_loop_skip:
  "(\<And>i. P i \<longleftrightarrow> entity_exists this (entityName i)) \<Longrightarrow>
   addObservations_loop max_args (filter P inputs) (results, this) =
   addObservations_loop max_args inputs (results, this)"
proof (induction inputs arbitrary: results this)
  case Nil
  show ?case by simp
next
  case (Cons obs rest)
  show ?case
  proof (cases "Map_get (entities this) (entityName obs)")
    case None
    then have "\<not> P obs" by (simp add: Cons.prems entity_exists_def)
    with None Cons.IH [of this results] Cons.prems show ?thesis by simp
  next
    case (Some e)
    let ?this1 = "this\<lparr>entities := Map_set (entityName obs)
        (e\<lparr>observations := observations e @ read_array this (contents obs)\<rparr>) (entities this)\<rparr>"
    have p: "P obs" using Some by (simp add: Cons.prems entity_exists_def)
    have "P i \<longleftrightarrow> entity_exists ?this1 (entityName i)" for i
      using Some by (simp add: Cons.prems entity_exists_def Map_get_set)
    from Cons.IH [of ?this1, OF this] p Some show ?thesis by (simp add: Let_def)
  qed
qed

text \<open>
  With contents arrays of the caller's own that one call can take, \<^verbatim>\<open>addObservations\<close>
  raises nothing, reports the entries of the entities that exist, each with its own strings,
  appends these strings to the entities in input order, and changes nothing else; the
  entries of unknown entities count for nothing.
\<close>

lemma addObservations_of_own_arrays:
  assumes "list_all (\<lambda>i. own_within max_args (contents i)) inputs"
  shows "\<exists>this'. addObservations max_args inputs this =
           (Inr (map add_result (filter (\<lambda>i. entity_exists this (entityName i)) inputs)),
            this') \<and>
         (\<forall>n. Map_get (entities this') n =
            map_option (\<lambda>e. e\<lparr>observations := observations e @ appended_to n inputs\<rparr>)
              (Map_get (entities this) n)) \<and>
         map fst (entities this') = map fst (entities this) \<and>
         relations this' = relations this \<and>
         addObservations max_args
           (filter (\<lambda>i. entity_exists this (entityName i)) inputs) this =
           addObservations max_args inputs this"
proof -
  have "addObservations max_args (filter (\<lambda>i. entity_exists this (entityName i)) inputs) this =
        addObservations max_args inputs this"
    unfolding addObservations_def by (rule addObservations_loop_skip) simp
  with addObservations_loop_char [OF assms, of "[]" this] show ?thesis
    by (auto simp: addObservations_def)
qed

subsection \<open>\<^verbatim>\<open>deleteEntities\<close>\<close>

lemma deleteEntities_loop_char:
  "entities (deleteEntities_loop names this) =
     filter (\<lambda>p. fst p \<notin> set names) (entities this) \<and>
   relations (deleteEntities_loop names this) =
     filter (\<lambda>r. from_name r \<notin> set names \<and> to_name r \<notin> set names) (relations this)"
proof (induction names arbitrary: this)
  case Nil
  show ?case by simp
next
  case (Cons n names)
  show ?case
    by (simp add: Cons.IH Map_delete_def conj_commute conj_left_commute)
qed

subsection \<open>The invariant of the client\<close>

lemma wf_new_MockMCPClient: "wf_client new_MockMCPClient"
  by (simp add: wf_client_def new_MockMCPClient_def)

lemma wf_loadData: "wf_client (loadData g this)"
  using wf_fold_set [of "[]" "graph_entities g"] by (simp add: wf_client_def loadData_def)

lemma wf_createEntities: "wf_client this \<Longrightarrow> wf_client (snd (createEntities es this))"
  using wf_fold_set [of "entities this" es] by (simp add: createEntities_eq wf_client_def)

lemma wf_update_entity:
  assumes "wf_client this" "Map_get (entities this) k = Some e" "name e' = name e"
  shows "wf_client (this\<lparr>entities := Map_set k e' (entities this)\<rparr>)"
proof -
  from assms(2) have "(k, e) \<in> set (entities this)" by (rule Map_get_Some_mem)
  with assms(1) have "name e = k" by (auto simp: wf_client_def list_all_iff)
  with assms(3) have "name e' = k" by simp
  with assms(1) wf_Map_set [of "entities this" e' k] show ?thesis by (simp add: wf_client_def)
qed

lemma wf_addObservations_loop:
  "wf_client this \<Longrightarrow> wf_client (snd (addObservations_loop max_args inputs (results, this)))"
proof (induction inputs arbitrary: results this)
  case Nil
  then show ?case by simp
next
  case (Cons obs rest)
  show ?case
  proof (cases "Map_get (entities this) (entityName obs)")
    case None
    with Cons show ?thesis by simp
  next
    case (Some e)
    let ?e' = "e\<lparr>observations := observations e @ read_array this (contents obs)\<rparr>"
    from wf_update_entity [OF Cons.prems Some, of ?e']
    have "wf_client (this\<lparr>entities := Map_set (entityName obs) ?e' (entities this)\<rparr>)" by simp
    from Cons.IH [OF this] Some Cons.prems show ?thesis by (simp add: Let_def)
  qed
qed

lemma wf_addObservations:
  "wf_client this \<Longrightarrow> wf_client (snd (addObservations max_args inputs this))"
  by (simp add: addObservations_def wf_addObservations_loop)

lemma wf_deleteEntities: "wf_client this \<Longrightarrow> wf_client (snd (deleteEntities names this))"
  using deleteEntities_loop_char [of names this]
  by (simp add: deleteEntities_def wf_client_def distinct_map_filter list_all_iff)

lemma wf_deleteObservations_loop:
  "wf_client this \<Longrightarrow> wf_client (deleteObservations_loop deletions this)"
proof (induction deletions arbitrary: this)
  case Nil
  then show ?case by simp
next
  case (Cons d rest)
  show ?case
  proof (cases "Map_get (entities this) (deletion_entityName d)")
    case None
    with Cons show ?thesis by simp
  next
    case (Some e)
    let ?e' = "e\<lparr>observations :=
                  filter (\<lambda>ob. ob \<notin> set (deletion_observations d)) (observations e)\<rparr>"
    from wf_update_entity [OF Cons.prems Some, of ?e']
    have "wf_client (this\<lparr>entities := Map_set (deletion_entityName d) ?e' (entities this)\<rparr>)"
      by simp
    from Cons.IH [OF this] Some show ?thesis by simp
  qed
qed

lemma entities_createRelations_loop [simp]:
  "entities (createRelations_loop rs this) = entities this"
  by (induction rs arbitrary: this) simp_all

lemma entities_deleteRelations_loop [simp]:
  "entities (deleteRelations_loop rs this) = entities this"
  by (induction rs arbitrary: this) simp_all

lemma wf_relations_only:
  "wf_client this \<Longrightarrow>
   wf_client (snd (createRelations rs this)) \<and> wf_client (snd (deleteRelations rs this))"
  by (simp add: wf_client_def createRelations_def deleteRelations_def)

subsection \<open>\<^verbatim>\<open>searchNodes\<close>: lower-casing against equality up to case\<close>

lemma same_letter_iff: "same_letter a b \<longleftrightarrow> lower_unit a = lower_unit b"
  unfolding same_letter_def case_variants_def lower_unit_def capital_def by presburger

lemma equal_ignoring_case_iff:
  "equal_ignoring_case s t \<longleftrightarrow> map lower_unit s = map lower_unit t"
proof -
  have eq: "same_letter = (\<lambda>x y. lower_unit x = lower_unit y)"
    by (simp add: fun_eq_iff same_letter_iff)
  have "list_all2 (\<lambda>x y. lower_unit x = lower_unit y) s t \<longleftrightarrow>
        map lower_unit s = map lower_unit t"
  proof (induction s arbitrary: t)
    case Nil
    show ?case by auto
  next
    case (Cons c s)
    show ?case by (cases t) (simp_all add: Cons.IH)
  qed
  with eq show ?thesis by (simp add: equal_ignoring_case_def)
qed

lemma startsWith_prefix: "startsWith s q \<longleftrightarrow> prefix q s"
  by (induction s q rule: startsWith.induct) auto

lemma String_includes_sublist: "String_includes s q \<longleftrightarrow> sublist q s"
  by (induction s) (auto simp: startsWith_prefix sublist_Cons_right)

lemma in_substrings: "t \<in> set (substrings s) \<longleftrightarrow> sublist t s"
proof
  assume "t \<in> set (substrings s)"
  then obtain x where "suffix x s" "prefix t x" by (auto simp: substrings_def)
  then show "sublist t s" by (auto simp: sublist_def suffix_def prefix_def)
next
  assume "sublist t s"
  then obtain ps ss where "s = ps @ t @ ss" by (auto simp: sublist_def)
  then have "suffix (t @ ss) s" "prefix t (t @ ss)" by (auto simp: suffix_def)
  then have "t @ ss \<in> set (suffixes s)" "t \<in> set (prefixes (t @ ss))" by simp_all
  then have "\<exists>x\<in>set (suffixes s). t \<in> set (prefixes x)" by blast
  then show "t \<in> set (substrings s)" by (simp add: substrings_def)
qed

lemma sublist_map_iff:
  "sublist (map f q) (map f s) \<longleftrightarrow> (\<exists>t. sublist t s \<and> map f t = map f q)"
proof
  assume "sublist (map f q) (map f s)"
  then obtain ps ss where "map f s = ps @ map f q @ ss" by (auto simp: sublist_def)
  then obtain s1 r where r: "s = s1 @ r" "map f q @ ss = map f r"
    by (auto simp: map_eq_append_conv)
  from r(2) obtain t s3 where "r = t @ s3" "map f q = map f t"
    by (auto simp: append_eq_map_conv)
  with r(1) have "s = s1 @ t @ s3" "map f t = map f q" by simp_all
  then show "\<exists>t. sublist t s \<and> map f t = map f q" by (auto simp: sublist_def)
next
  assume "\<exists>t. sublist t s \<and> map f t = map f q"
  then obtain t ps ss where "s = ps @ t @ ss" "map f t = map f q" by (auto simp: sublist_def)
  then have "map f s = map f ps @ map f q @ map f ss" by simp
  then show "sublist (map f q) (map f s)" unfolding sublist_def by blast
qed

lemma includes_lower_units_iff:
  "String_includes (map lower_unit s) (map lower_unit q) \<longleftrightarrow> occurs_ignoring_case q s"
proof -
  have "occurs_ignoring_case q s \<longleftrightarrow> (\<exists>t. sublist t s \<and> map lower_unit t = map lower_unit q)"
    by (auto simp: occurs_ignoring_case_def list_ex_iff in_substrings equal_ignoring_case_iff)
  then show ?thesis
    by (simp add: String_includes_sublist sublist_map_iff)
qed

lemma lower_from_units: "0x3A3 \<notin> set s \<Longrightarrow> lower_from before s = map lower_unit s"
  by (induction s arbitrary: before) auto

lemma toLowerCase_units:
  "without_capital_sigma s \<Longrightarrow> toLowerCase s = Some (map lower_unit s)"
proof -
  assume a: "without_capital_sigma s"
  then have "list_all in_repertoire s" "0x3A3 \<notin> set s"
    by (auto simp: without_capital_sigma_def list_all_iff)
  then show ?thesis by (simp add: toLowerCase_def lower_from_units)
qed

lemma lower_includes_iff:
  "without_capital_sigma s \<Longrightarrow> without_capital_sigma q \<Longrightarrow>
   lower_includes s q = Some (occurs_ignoring_case q s)"
  by (simp add: lower_includes_def toLowerCase_units includes_lower_units_iff)

lemma or_else_Some [simp]: "or_else (Some a) (Some b) = Some (a \<or> b)"
  by (cases a) simp_all

lemma Array_some_list_ex:
  "(\<And>x. x \<in> set xs \<Longrightarrow> p x = Some (f x)) \<Longrightarrow> Array_some p xs = Some (list_ex f xs)"
  by (induction xs) simp_all

lemma Array_filter_filter:
  "(\<And>x. x \<in> set xs \<Longrightarrow> p x = Some (f x)) \<Longrightarrow> Array_filter p xs = Some (filter f xs)"
  by (induction xs) simp_all

lemma searchNodes_matches_iff:
  assumes "without_capital_sigma q" "entity_without_capital_sigma e"
  shows "searchNodes_matches q e = Some (spec_matches q e)"
proof -
  from assms(2) have n: "without_capital_sigma (name e)"
    and t: "without_capital_sigma (entityType e)"
    and o: "\<And>ob. ob \<in> set (observations e) \<Longrightarrow> without_capital_sigma ob"
    by (auto simp: entity_without_capital_sigma_def list_all_iff)
  have "Array_some (\<lambda>ob. lower_includes ob q) (observations e) =
        Some (list_ex (occurs_ignoring_case q) (observations e))"
    by (rule Array_some_list_ex) (simp add: lower_includes_iff o assms(1))
  then show ?thesis
    by (simp add: searchNodes_matches_def spec_matches_def
        lower_includes_iff [OF n assms(1)] lower_includes_iff [OF t assms(1)])
qed

text \<open>
  On strings of the three blocks without capital sigma, lower-casing works unit by unit and
  \<^verbatim>\<open>searchNodes\<close> returns, in store order, exactly the stored entities in whose name, type or
  some observation the query occurs ignoring case.
\<close>

lemma searchNodes_exact_without_capital_sigma:
  assumes "without_capital_sigma q"
    and "list_all entity_without_capital_sigma (Map_values (entities this))"
  shows "searchNodes q this =
           Some (\<lparr>graph_entities = filter (spec_matches q) (graph_entities (fst (readGraph this))),
                  graph_relations = []\<rparr>, this)"
proof -
  have "Array_filter (searchNodes_matches q) (Map_values (entities this)) =
        Some (filter (spec_matches q) (Map_values (entities this)))"
    by (rule Array_filter_filter)
      (use assms in \<open>simp add: searchNodes_matches_iff list_all_iff\<close>)
  then show ?thesis by (simp add: searchNodes_def readGraph_def)
qed

subsection \<open>\<^verbatim>\<open>openNodes\<close>\<close>

lemma map_the_filter:
  "map the (filter (\<lambda>x. x \<noteq> None) (map f xs)) =
   concat (map (\<lambda>n. case f n of None \<Rightarrow> [] | Some e \<Rightarrow> [e]) xs)"
  by (induction xs) (auto split: option.splits)

section \<open>The store: properties\<close>

text \<open>
  C4. \<^verbatim>\<open>createEntities\<close> raises nothing and returns its inputs. Afterwards the entity stored
  under the name of an input entity is the last input entity of that name, with that
  entity's type and observations and nothing of an earlier entity of the name (last write
  wins). When every input name is already stored, the keys of the store and their order
  stay as they were: entities are overwritten, none is added. In a client that keeps its
  invariant, \<^verbatim>\<open>readGraph\<close> then shows exactly one entity of that name, the last input.
\<close>

theorem createEntities_last_write_wins:
  assumes "e \<in> set es"
  shows "fst (createEntities es this) = es \<and>
         Map_get (entities (snd (createEntities es this))) (name e) =
           Some (last (filter (\<lambda>x. name x = name e) es)) \<and>
         (name ` set es \<subseteq> fst ` set (entities this) \<longrightarrow>
            map fst (entities (snd (createEntities es this))) = map fst (entities this)) \<and>
         (wf_client this \<longrightarrow>
            filter (\<lambda>x. name x = name e)
              (graph_entities (fst (readGraph (snd (createEntities es this))))) =
            [last (filter (\<lambda>x. name x = name e) es)])"
proof -
  let ?this' = "snd (createEntities es this)"
  from assms have "filter (\<lambda>x. name x = name e) es \<noteq> []"
    by (auto simp: filter_empty_conv)
  then obtain x xs where f: "filter (\<lambda>x. name x = name e) es = x # xs"
    by (cases "filter (\<lambda>x. name x = name e) es") auto
  have g: "Map_get (entities ?this') (name e) = Some (last (filter (\<lambda>x. name x = name e) es))"
    by (simp add: createEntities_eq Map_get_fold_set f)
  have k: "name ` set es \<subseteq> fst ` set (entities this) \<longrightarrow>
           map fst (entities ?this') = map fst (entities this)"
    by (simp add: createEntities_eq keys_fold_set_present)
  have r: "wf_client this \<longrightarrow>
           filter (\<lambda>x. name x = name e) (graph_entities (fst (readGraph ?this'))) =
           [last (filter (\<lambda>x. name x = name e) es)]"
  proof
    assume "wf_client this"
    then have "wf_client ?this'" by (rule wf_createEntities)
    then have "filter (\<lambda>x. name x = name e) (Map_values (entities ?this')) =
                 (case Map_get (entities ?this') (name e) of None \<Rightarrow> [] | Some v \<Rightarrow> [v])"
      by (simp add: wf_client_def values_named)
    with g show "filter (\<lambda>x. name x = name e) (graph_entities (fst (readGraph ?this'))) =
           [last (filter (\<lambda>x. name x = name e) es)]"
      by (simp add: readGraph_def)
  qed
  from g k r show ?thesis by (simp add: createEntities_eq)
qed

theorem createEntities_last_write_wins_witness:
  "wf_client \<lparr>entities = [(''A'', \<lparr>name = ''A'', entityType = ''T'',
                                   observations = [''old1'', ''old2'']\<rparr>)],
             relations = []\<rparr> \<and>
   readGraph (snd (createEntities
       [\<lparr>name = ''A'', entityType = ''U'', observations = [''new'']\<rparr>]
       \<lparr>entities = [(''A'', \<lparr>name = ''A'', entityType = ''T'',
                             observations = [''old1'', ''old2'']\<rparr>)],
        relations = []\<rparr>)) =
     (\<lparr>graph_entities = [\<lparr>name = ''A'', entityType = ''U'', observations = [''new'']\<rparr>],
       graph_relations = []\<rparr>,
      \<lparr>entities = [(''A'', \<lparr>name = ''A'', entityType = ''U'', observations = [''new'']\<rparr>)],
       relations = []\<rparr>)"
  using createEntities_last_write_wins
    [of "\<lparr>name = ''A'', entityType = ''U'', observations = [''new'']\<rparr>"
        "[\<lparr>name = ''A'', entityType = ''U'', observations = [''new'']\<rparr>]"
        "\<lparr>entities = [(''A'', \<lparr>name = ''A'', entityType = ''T'',
                              observations = [''old1'', ''old2'']\<rparr>)],
         relations = []\<rparr>"]
  by (simp add: wf_client_def createEntities_def readGraph_def Map_values_def)

text \<open>
  C5. What the claim says holds for contents arrays of the caller's own that one call can
  take (lemma \<open>addObservations_of_own_arrays\<close>), not for every call. A result entry carries
  the caller's \<^verbatim>\<open>contents\<close> array itself and the strings are pushed onto the stored array in
  place. When the contents is the stored observations array of the entity, as \<^verbatim>\<open>readGraph\<close>
  hands it out, that array is doubled and the result shows the doubled array: with the
  observation \<^verbatim>\<open>old\<close> stored, the strings added are \<^verbatim>\<open>old\<close> and the result reads \<^verbatim>\<open>old\<close>,
  \<^verbatim>\<open>old\<close>. And a contents array with more strings than one call takes as arguments makes
  the call raise a \<^verbatim>\<open>RangeError\<close>.
\<close>

theorem addObservations_reports_stored_array:
  "addObservations (Suc n) [\<lparr>entityName = ''A'', contents = Stored ''A''\<rparr>]
     \<lparr>entities = [(''A'', \<lparr>name = ''A'', entityType = ''T'', observations = [''old'']\<rparr>)],
      relations = []\<rparr> =
     (Inr [\<lparr>result_entityName = ''A'', addedObservations = Stored ''A''\<rparr>],
      \<lparr>entities = [(''A'', \<lparr>name = ''A'', entityType = ''T'',
                            observations = [''old'', ''old'']\<rparr>)],
       relations = []\<rparr>) \<and>
   read_array
     \<lparr>entities = [(''A'', \<lparr>name = ''A'', entityType = ''T'', observations = [''old'']\<rparr>)],
      relations = []\<rparr> (Stored ''A'') = [''old''] \<and>
   read_array
     \<lparr>entities = [(''A'', \<lparr>name = ''A'', entityType = ''T'',
                           observations = [''old'', ''old'']\<rparr>)],
      relations = []\<rparr> (Stored ''A'') = [''old'', ''old''] \<and>
   addObservations n [\<lparr>entityName = ''A'', contents = Own (replicate (Suc n) ''x'')\<rparr>]
     \<lparr>entities = [(''A'', \<lparr>name = ''A'', entityType = ''T'', observations = [''old'']\<rparr>)],
      relations = []\<rparr> =
     (Inl RangeError,
      \<lparr>entities = [(''A'', \<lparr>name = ''A'', entityType = ''T'', observations = [''old'']\<rparr>)],
       relations = []\<rparr>)"
  by (simp add: addObservations_def)

text \<open>
  C6. \<^verbatim>\<open>deleteEntities\<close> raises nothing, whether a name is stored or not. In a client that
  keeps its invariant, the graph that \<^verbatim>\<open>readGraph\<close> returns afterwards is the former graph
  without the entities whose name is listed and without the relations whose \<^verbatim>\<open>from\<close> or
  \<^verbatim>\<open>to\<close> is listed; every other entity and relation is there, unchanged and in its place.
\<close>

theorem deleteEntities_cascades:
  assumes "wf_client this"
  shows "graph_entities (fst (readGraph (snd (deleteEntities names this)))) =
           filter (\<lambda>e. name e \<notin> set names) (graph_entities (fst (readGraph this))) \<and>
         graph_relations (fst (readGraph (snd (deleteEntities names this)))) =
           filter (\<lambda>r. from_name r \<notin> set names \<and> to_name r \<notin> set names)
             (graph_relations (fst (readGraph this))) \<and>
         fst (deleteEntities names this) = (True, ''Entities deleted successfully'')"
  using assms deleteEntities_loop_char [of names this]
  by (simp add: readGraph_def deleteEntities_def wf_client_def values_filter_named)

theorem deleteEntities_cascades_witness:
  "wf_client
     \<lparr>entities = [(''A'', \<lparr>name = ''A'', entityType = ''T'', observations = [''a'']\<rparr>),
                  (''B'', \<lparr>name = ''B'', entityType = ''T'', observations = [''b'']\<rparr>)],
      relations = [\<lparr>from_name = ''A'', to_name = ''B'', relationType = ''r''\<rparr>,
                   \<lparr>from_name = ''B'', to_name = ''C'', relationType = ''r''\<rparr>,
                   \<lparr>from_name = ''C'', to_name = ''A'', relationType = ''r''\<rparr>]\<rparr> \<and>
   fst (readGraph (snd (deleteEntities [''A'', ''Q'']
     \<lparr>entities = [(''A'', \<lparr>name = ''A'', entityType = ''T'', observations = [''a'']\<rparr>),
                  (''B'', \<lparr>name = ''B'', entityType = ''T'', observations = [''b'']\<rparr>)],
      relations = [\<lparr>from_name = ''A'', to_name = ''B'', relationType = ''r''\<rparr>,
                   \<lparr>from_name = ''B'', to_name = ''C'', relationType = ''r''\<rparr>,
                   \<lparr>from_name = ''C'', to_name = ''A'', relationType = ''r''\<rparr>]\<rparr>))) =
     \<lparr>graph_entities = [\<lparr>name = ''B'', entityType = ''T'', observations = [''b'']\<rparr>],
      graph_relations = [\<lparr>from_name = ''B'', to_name = ''C'', relationType = ''r''\<rparr>]\<rparr>"
  using deleteEntities_cascades
    [of "\<lparr>entities = [(''A'', \<lparr>name = ''A'', entityType = ''T'', observations = [''a'']\<rparr>),
                       (''B'', \<lparr>name = ''B'', entityType = ''T'', observations = [''b'']\<rparr>)],
          relations = [\<lparr>from_name = ''A'', to_name = ''B'', relationType = ''r''\<rparr>,
                       \<lparr>from_name = ''B'', to_name = ''C'', relationType = ''r''\<rparr>,
                       \<lparr>from_name = ''C'', to_name = ''A'', relationType = ''r''\<rparr>]\<rparr>"
        "[''A'', ''Q'']"]
  by (simp add: wf_client_def readGraph_def deleteEntities_def Map_delete_def Map_values_def)

text \<open>
  C7. What the claim says holds for strings without capital sigma (lemma
  \<open>searchNodes_exact_without_capital_sigma\<close>), not for every query. \<^verbatim>\<open>toLowerCase\<close> turns the
  capital sigma that ends a word into the final small sigma and a capital sigma that stands
  alone into the small sigma: the query of the one letter capital sigma occurs as it
  stands in the name capital alpha, capital sigma, and yet \<^verbatim>\<open>searchNodes\<close> returns no entity.
\<close>

theorem searchNodes_misses_capital_sigma:
  "String_includes [0x391, 0x3A3] [0x3A3 :: nat] \<and>
   spec_matches [0x3A3]
     \<lparr>name = [0x391, 0x3A3], entityType = [0x54], observations = []\<rparr> \<and>
   searchNodes [0x3A3]
     \<lparr>entities = [([0x391, 0x3A3],
                   \<lparr>name = [0x391, 0x3A3], entityType = [0x54], observations = []\<rparr>)],
      relations = []\<rparr> =
     Some (\<lparr>graph_entities = [], graph_relations = []\<rparr>,
           \<lparr>entities = [([0x391, 0x3A3],
                         \<lparr>name = [0x391, 0x3A3], entityType = [0x54], observations = []\<rparr>)],
            relations = []\<rparr>)"
  by (simp add: searchNodes_def searchNodes_matches_def lower_includes_def Map_values_def
      toLowerCase_def in_repertoire_def lower_unit_def capital_def cased_def case_ignorable_def
      spec_matches_def occurs_ignoring_case_def substrings_def equal_ignoring_case_def
      same_letter_def case_variants_def)

text \<open>
  C9. \<^verbatim>\<open>readGraph\<close> leaves the client as it is, so a second call right after the first
  returns the same graph: the same entities and the same relations.
\<close>

theorem readGraph_idempotent:
  "fst (readGraph (snd (readGraph this))) = fst (readGraph this) \<and>
   snd (readGraph this) = this \<and>
   snd (readGraph (snd (readGraph this))) = this"
  by (simp add: readGraph_def)

text \<open>
  C10. \<^verbatim>\<open>openNodes\<close> returns the stored entities of the requested names in the order of the
  request, the names without a stored entity dropped; a name requested twice gives its
  entity twice. It returns no relations and leaves the store as it is.
\<close>

theorem openNodes_follows_request:
  "graph_entities (fst (openNodes names this)) =
     stored_in_request_order (entities this) names \<and>
   graph_relations (fst (openNodes names this)) = [] \<and>
   snd (openNodes names this) = this \<and>
   (Map_get (entities this) n = Some e \<longrightarrow>
      graph_entities (fst (openNodes [n, n] this)) = [e, e])"
  by (simp add: openNodes_def stored_in_request_order_def map_the_filter del: not_None_eq)

theorem openNodes_follows_request_witness:
  "graph_entities (fst (openNodes [''B'', ''Z'', ''A'', ''B'']
     \<lparr>entities = [(''A'', \<lparr>name = ''A'', entityType = ''T'', observations = [''a'']\<rparr>),
                  (''B'', \<lparr>name = ''B'', entityType = ''T'', observations = [''b'']\<rparr>)],
      relations = []\<rparr>)) =
     [\<lparr>name = ''B'', entityType = ''T'', observations = [''b'']\<rparr>,
      \<lparr>name = ''A'', entityType = ''T'', observations = [''a'']\<rparr>,
      \<lparr>name = ''B'', entityType = ''T'', observations = [''b'']\<rparr>] \<and>
   graph_entities (fst (openNodes [''B'', ''B'']
     \<lparr>entities = [(''A'', \<lparr>name = ''A'', entityType = ''T'', observations = [''a'']\<rparr>),
                  (''B'', \<lparr>name = ''B'', entityType = ''T'', observations = [''b'']\<rparr>)],
      relations = []\<rparr>)) =
     [\<lparr>name = ''B'', entityType = ''T'', observations = [''b'']\<rparr>,
      \<lparr>name = ''B'', entityType = ''T'', observations = [''b'']\<rparr>]"
  using openNodes_follows_request
    [of "[''B'', ''Z'', ''A'', ''B'']"
        "\<lparr>entities = [(''A'', \<lparr>name = ''A'', entityType = ''T'', observations = [''a'']\<rparr>),
                       (''B'', \<lparr>name = ''B'', entityType = ''T'', observations = [''b'']\<rparr>)],
          relations = []\<rparr>"
        "''B''" "\<lparr>name = ''B'', entityType = ''T'', observations = [''b'']\<rparr>"]
  by (simp add: stored_in_request_order_def)

section \<open>The execution engine: lemmas\<close>

subsection \<open>Captured output\<close>

lemma sandboxConsole_append: "sandboxConsole m args out = out @ sandboxConsole m args []"
  by (cases m) simp_all

lemma written_append: "written (xs @ ys) = written xs @ written ys"
  by (induction xs rule: written.induct) simp_all







subsection \<open>Settling times of awaited promises\<close>






subsection \<open>Reaching an uncaught throw\<close>

lemma resume_reaches:
  "list_all proceeds pre \<Longrightarrow>
   resume (pre @ tail) out now = resume tail (out @ written pre) (now + duration pre)"
proof (induction pre arbitrary: out now)
  case Nil
  show ?case by simp
next
  case (Cons a pre)
  then show ?case
    using sandboxConsole_append [of _ _ out]
    by (cases a) (simp_all add: add.assoc)
qed

lemma runInContext_reaches_throw:
  "list_all proceeds pre \<Longrightarrow> now + sync_cost pre \<le> limit \<Longrightarrow>
   await_promise (runInContext limit (pre @ Throw v # rest) out now) =
     Some (Inl v, out @ written pre, now + duration pre)"
proof (induction pre arbitrary: out now)
  case Nil
  show ?case by simp
next
  case (Cons a pre)
  show ?case
  proof (cases a)
    case (Write m args)
    have "out @ written (a # pre) = sandboxConsole m args out @ written pre"
      using sandboxConsole_append [of m args out] Write by simp
    with Write Cons.prems Cons.IH [of now "sandboxConsole m args out"]
    show ?thesis by simp
  next
    case (Compute n)
    with Cons.prems Cons.IH [of "now + n" out] show ?thesis by (simp add: add.assoc)
  next
    case (Await n)
    with Cons.prems show ?thesis by (simp add: resume_reaches add.assoc)
  next
    case (Throw w)
    with Cons.prems show ?thesis by simp
  next
    case Loop_forever
    with Cons.prems show ?thesis by simp
  qed
qed

lemma try_block_reaches_throw:
  assumes "list_all proceeds pre" "sync_cost pre \<le> limit" "1 \<le> limit" "limit \<le> 4294967295"
  shows "try_block limit (Script (pre @ Throw v # rest)) =
           Some (Inl v, written pre, duration pre)"
proof -
  from assms(2) have "0 + sync_cost pre \<le> limit" by simp
  from runInContext_reaches_throw [OF assms(1) this, where v = v and rest = rest and out = "[]"]
    assms(3,4)
  show ?thesis by simp
qed

text \<open>
  When the body reaches an uncaught \<^verbatim>\<open>throw\<close> of an error with a message, or of a value that
  \<^verbatim>\<open>String\<close> converts, the outcome is a failure whose output is the lines written before the
  throw, whose error is that message or text, and whose elapsed time is the time up to the
  throw.
\<close>

lemma uncaught_throw_reported:
  assumes "list_all proceeds pre" "sync_cost pre \<le> budget options"
    "1 \<le> budget options" "budget options \<le> 4294967295"
  shows "executeCode (Script (pre @ Throw (Error_instance message) # rest)) options =
           Some (Inr \<lparr>success = False, output = written pre, error = Some message,
                     elapsedMs = duration pre\<rparr>) \<and>
         executeCode (Script (pre @ Throw (Other_thrown shown) # rest)) options =
           Some (Inr \<lparr>success = False, output = written pre, error = Some shown,
                     elapsedMs = duration pre\<rparr>)"
  using try_block_reaches_throw [OF assms, of "Error_instance message" rest]
    try_block_reaches_throw [OF assms, of "Other_thrown shown" rest]
  by (simp add: executeCode_def del: try_block.simps)

lemma no_error_on_success:
  "executeCode code options = Some (Inr r) \<Longrightarrow> success r \<Longrightarrow> error r = None"
  by (auto simp: executeCode_def split: option.splits sum.splits prod.splits)

subsection \<open>The watchdog on the synchronous run\<close>

lemma runInContext_sync_loop:
  "list_all synchronous pre \<Longrightarrow>
   fst (runInContext limit (pre @ Loop_forever # rest) out now) = Inl (timed_out limit) \<and>
   prefix (fst (snd (runInContext limit (pre @ Loop_forever # rest) out now)))
     (out @ written pre) \<and>
   snd (snd (runInContext limit (pre @ Loop_forever # rest) out now)) = limit"
proof (induction pre arbitrary: out now)
  case Nil
  show ?case by simp
next
  case (Cons a pre)
  show ?case
  proof (cases a)
    case (Write m args)
    with Cons.prems Cons.IH [of "sandboxConsole m args out" now]
    show ?thesis using sandboxConsole_append [of m args out] by simp
  next
    case (Compute n)
    with Cons.prems Cons.IH [of out "now + n"] show ?thesis by simp
  qed (use Cons.prems in simp_all)
qed

text \<open>
  A loop that never ends and stands before the first \<^verbatim>\<open>await\<close> of the body is stopped
  when the budget is used up: the outcome is a failure that names the timeout, keeps the
  lines written before, and has the budget as its elapsed time.
\<close>

lemma synchronous_loop_times_out:
  assumes "list_all synchronous pre" "1 \<le> limit" "limit \<le> 4294967295"
  shows "\<exists>r. executeCode (Script (pre @ Loop_forever # rest)) \<lparr>timeoutMs = Some limit\<rparr> =
               Some (Inr r) \<and>
             \<not> success r \<and>
             error r =
               Some (''Error: Script execution timed out after '' @ string_of_nat limit @ ''ms'') \<and>
             prefix (output r) (written pre) \<and> elapsedMs r = limit"
proof -
  obtain c out now where r: "runInContext limit (pre @ Loop_forever # rest) [] 0 = (c, out, now)"
    by (cases "runInContext limit (pre @ Loop_forever # rest) [] 0") auto
  with runInContext_sync_loop [OF assms(1), of limit rest "[]" 0]
  have "c = Inl (timed_out limit)" "prefix out (written pre)" "now = limit" by simp_all
  with r assms(2,3) show ?thesis by (simp add: executeCode_def budget_def timed_out_def)
qed

section \<open>The execution engine: properties\<close>

text \<open>
  C1. The budget is not enforced on every script. The timeout is handed to
  \<^verbatim>\<open>runInContext\<close>, which watches the synchronous run up to the first \<^verbatim>\<open>await\<close> of the body, and
  \<^verbatim>\<open>await resultPromise\<close> waits without any limit. With a budget of 50 ms, a body that awaits
  a promise settling after 200 ms and then writes a line ends as a success after 200 ms, and
  a body that loops forever after an \<^verbatim>\<open>await\<close> never gives an outcome at all. (The loop that
  stands before the first \<^verbatim>\<open>await\<close> is stopped: lemma \<open>synchronous_loop_times_out\<close>.)
\<close>

theorem timeout_not_enforced_after_await:
  "executeCode (Script [Await 200, Write Console_log [JString ''done'']])
     \<lparr>timeoutMs = Some 50\<rparr> =
     Some (Inr \<lparr>success = True, output = [''done''], error = None, elapsedMs = 200\<rparr>) \<and>
   executeCode (Script [Await 0, Loop_forever]) \<lparr>timeoutMs = Some 50\<rparr> = None"
  by (simp add: executeCode_def budget_def)



text \<open>
  C8. The \<^verbatim>\<open>catch\<close> block takes the description from \<^verbatim>\<open>error.message\<close> for an instance of
  \<^verbatim>\<open>Error\<close> and from \<^verbatim>\<open>String(error)\<close> for any other value, and so misses two kinds of thrown
  values. For an error whose message is \<^verbatim>\<open>undefined\<close> the outcome is a failure without an
  error description. For a value that \<^verbatim>\<open>String\<close> cannot convert the \<^verbatim>\<open>catch\<close> block throws
  itself: \<^verbatim>\<open>executeCode\<close> returns no outcome, its promise is rejected. (For an error with a
  message and a value that \<^verbatim>\<open>String\<close> converts the failure is reported as the claim says:
  lemma \<open>uncaught_throw_reported\<close>.)
\<close>

theorem failure_without_description:
  "executeCode (Script [Write Console_log [JString ''a''], Throw Error_without_message])
     \<lparr>timeoutMs = None\<rparr> =
     Some (Inr \<lparr>success = False, output = [''a''], error = None, elapsedMs = 0\<rparr>) \<and>
   executeCode (Script [Write Console_log [JString ''a''], Throw Unconvertible])
     \<lparr>timeoutMs = None\<rparr> =
     Some (Inl (Error_instance ''Cannot convert object to primitive value''))"
  by (simp add: executeCode_def budget_def)

end
